theory Spec2Isabelle
  imports
    Main
    "HOL-Library.AList"
    "HOL-Library.Char_ord"
    "HOL-Library.List_Lexorder"
    "HOL-Library.Word"
begin

section \<open>The rosbag abstraction of rqt\_bag (rosbag2.py)\<close>

text \<open>
  The class \<open>Rosbag2\<close> wraps a bag directory: the bag's metadata, as the sequential reader
  of rosbag2\_py hands it over, and the SQLite file with the tables \<open>topics\<close> and
  \<open>messages\<close>. The reader, the metadata types and the SQL engine are libraries outside
  the repository. Their values are parameters of the model: the metadata that
  \<open>reader.get_metadata()\<close> returns, the content of the database file named by \<open>db_name\<close>,
  and what the engine leaves open or what is not modelled of it. Logging and printing are
  not modelled.
\<close>

subsection \<open>Errors\<close>

text \<open>
  The exceptions of the class itself: reading an attribute that \<open>__init__\<close> never assigned,
  and indexing an empty list of file paths; and those of the \<open>sqlite3\<close> module for a query
  text it does not accept.
\<close>

datatype error = AttributeError | IndexError | OperationalError | ProgrammingError

subsection \<open>Data of rosbag2\_py\<close>

record TopicMetadata =
  name :: string
  type :: string
  serialization_format :: string

record TopicInformation =
  topic_metadata :: TopicMetadata
  message_count :: int

text \<open>Times are integers, in nanoseconds.\<close>

record BagMetadata =
  bag_size :: int
  relative_file_paths :: "string list"
  starting_time :: int
  duration :: int
  topics_with_message_count :: "TopicInformation list"

datatype SequentialReader = SequentialReader

subsection \<open>The database file\<close>

type_synonym blob = "8 word list"

record topics_row =
  topics_id :: int
  topics_name :: string
  topics_type :: string
  topics_serialization_format :: string

record messages_row =
  messages_id :: int
  messages_topic_id :: int
  messages_timestamp :: int
  messages_data :: blob

text \<open>
  Both tables in row order. The tables of a bag have the columns of the two row types and,
  with the version of the storage plugin, further ones; \<open>more_columns\<close> are their names.
\<close>

record database =
  topics :: "topics_row list"
  messages :: "messages_row list"
  more_columns :: "string list"

text \<open>The named tuple \<open>Entry\<close> of \<open>_execute_sql_query\<close>.\<close>

record Entry =
  topic :: string
  data :: blob
  timestamp :: int

subsection \<open>The object\<close>

text \<open>
  An attribute is \<open>None\<close> here when \<open>__init__\<close> has not assigned it; \<open>reader\<close> is the one
  attribute that is assigned in both modes, and is Python's \<open>None\<close> when recording.
  A Python dict keeps its keys in insertion order, so \<open>topic_metadata_map\<close> is an
  association list with distinct keys.
\<close>

record Rosbag2 =
  bag_path :: string
  reader :: "SequentialReader option"
  metadata :: "BagMetadata option"
  db_name :: "string option"
  topic_metadata_map :: "(string \<times> TopicMetadata) list option"

text \<open>\<open>os.path.join\<close> of two components, on POSIX.\<close>

definition os_path_join :: "string \<Rightarrow> string \<Rightarrow> string" where
  "os_path_join a b =
     (if b \<noteq> [] \<and> hd b = CHR ''/'' then b
      else if a = [] \<or> last a = CHR ''/'' then a @ b
      else a @ ''/'' @ b)"

text \<open>
  The dict comprehension of \<open>__init__\<close>: a name that comes again keeps its place and takes
  the later value.
\<close>

definition build_topic_metadata_map ::
    "TopicInformation list \<Rightarrow> (string \<times> TopicMetadata) list" where
  "build_topic_metadata_map infos =
     fold (\<lambda>t_info m. AList.update (name (topic_metadata t_info)) (topic_metadata t_info) m)
       infos []"

text \<open>
  \<open>__init__(bag_path, recording)\<close>; \<open>md\<close> is what the reader finds in the bag. When
  recording, nothing is opened and only \<open>bag_path\<close> and \<open>reader\<close> are assigned.
\<close>

definition Rosbag2_init :: "string \<Rightarrow> bool \<Rightarrow> BagMetadata \<Rightarrow> error + Rosbag2" where
  "Rosbag2_init path recording md =
     (if recording then
        Inr \<lparr>bag_path = path, reader = None, metadata = None, db_name = None,
             topic_metadata_map = None\<rparr>
      else
        (case relative_file_paths md of
           [] \<Rightarrow> Inl IndexError
         | p # _ \<Rightarrow>
             Inr \<lparr>bag_path = path, reader = Some SequentialReader, metadata = Some md,
                  db_name = Some (os_path_join path p),
                  topic_metadata_map =
                    Some (build_topic_metadata_map (topics_with_message_count md))\<rparr>))"

subsection \<open>Metadata accessors\<close>

definition size :: "Rosbag2 \<Rightarrow> error + int" where
  "size self = (case metadata self of None \<Rightarrow> Inl AttributeError
                | Some md \<Rightarrow> Inr (bag_size md))"

definition get_earliest_timestamp :: "Rosbag2 \<Rightarrow> error + int" where
  "get_earliest_timestamp self =
     (case metadata self of None \<Rightarrow> Inl AttributeError
      | Some md \<Rightarrow> Inr (starting_time md))"

definition get_latest_timestamp :: "Rosbag2 \<Rightarrow> error + int" where
  "get_latest_timestamp self =
     (case metadata self of None \<Rightarrow> Inl AttributeError
      | Some md \<Rightarrow> Inr (starting_time md + duration md))"

definition get_topics :: "Rosbag2 \<Rightarrow> error + string list" where
  "get_topics self =
     (case topic_metadata_map self of None \<Rightarrow> Inl AttributeError
      | Some m \<Rightarrow> Inr (sort (map fst m)))"

definition get_topic_type :: "Rosbag2 \<Rightarrow> string \<Rightarrow> error + string option" where
  "get_topic_type self tp =
     (case topic_metadata_map self of None \<Rightarrow> Inl AttributeError
      | Some m \<Rightarrow>
          (case map_of m tp of None \<Rightarrow> Inr None
           | Some tm \<Rightarrow> Inr (Some (type tm))))"

definition get_topic_metadata :: "Rosbag2 \<Rightarrow> string \<Rightarrow> error + TopicMetadata option" where
  "get_topic_metadata self tp =
     (case topic_metadata_map self of None \<Rightarrow> Inl AttributeError
      | Some m \<Rightarrow>
          (case map_of m tp of None \<Rightarrow> Inr None
           | Some tm \<Rightarrow> Inr (Some tm)))"

text \<open>
  \<open>d.setdefault(k, []).append(v)\<close>: a new key goes to the end with the group \<open>[v]\<close>, a
  known key keeps its place and its group grows at the end.
\<close>

definition setdefault_append :: "'k \<Rightarrow> 'v \<Rightarrow> ('k \<times> 'v list) list \<Rightarrow> ('k \<times> 'v list) list" where
  "setdefault_append k v d =
     (case map_of d k of
        None \<Rightarrow> d @ [(k, [v])]
      | Some vs \<Rightarrow> AList.update k (vs @ [v]) d)"

text \<open>The body of the loop over \<open>topic_metadata_map.items()\<close>.\<close>

definition group_step ::
    "string \<times> TopicMetadata \<Rightarrow> (string \<times> string list) list \<Rightarrow> (string \<times> string list) list" where
  "group_step = (\<lambda>(nm, tm) topics_by_type. setdefault_append (type tm) nm topics_by_type)"

definition get_topics_by_type :: "Rosbag2 \<Rightarrow> error + (string \<times> string list) list" where
  "get_topics_by_type self =
     (case topic_metadata_map self of None \<Rightarrow> Inl AttributeError
      | Some m \<Rightarrow> Inr (fold group_step m []))"

subsection \<open>Queries\<close>

text \<open>
  The three query tails the class builds, each from the nanoseconds of its timestamps:
  \<^item> \<open>timestamp<=t ORDER BY messages.timestamp DESC LIMIT 1;\<close>
  \<^item> \<open>timestamp>t ORDER BY messages.timestamp LIMIT 1;\<close>
  \<^item> \<open>timestamp>=t0 AND timestamp<=t1 ORDER BY messages.timestamp;\<close>
\<close>

datatype sql_query =
    Le_Desc_Limit1 int
  | Gt_Asc_Limit1 int
  | Between_Asc int int

text \<open>
  \<open>SELECT topics.name, data, timestamp FROM messages JOIN topics
  ON messages.topic_id = topics.id\<close>: one row for each message and each topic row with
  the message's topic id, in the row order of \<open>messages\<close>.
\<close>

definition joined_rows :: "database \<Rightarrow> Entry list" where
  "joined_rows db =
     concat (map (\<lambda>m.
        map (\<lambda>t. \<lparr>topic = topics_name t, data = messages_data m,
                  timestamp = messages_timestamp m\<rparr>)
          (filter (\<lambda>t. messages_topic_id m = topics_id t) (topics db)))
       (messages db))"

fun where_timestamp :: "sql_query \<Rightarrow> int \<Rightarrow> bool" where
  "where_timestamp (Le_Desc_Limit1 t) ts = (ts \<le> t)"
| "where_timestamp (Gt_Asc_Limit1 t) ts = (ts > t)"
| "where_timestamp (Between_Asc t0 t1) ts = (ts \<ge> t0 \<and> ts \<le> t1)"

subsubsection \<open>The topic in the query text\<close>

text \<open>
  When a topic is requested, its name goes into the query text as it is:
  \<open>'topics.name="{}"AND '.format(topic)\<close>. What the engine compares the column with
  depends on the name. SQLite takes a token in double quotes for a column when a column has
  that name, letter case apart, and for a string otherwise; the token ends at the first
  double quote; and the \<open>sqlite3\<close> module refuses a text with a NUL character. The two
  tables are joined, so \<open>rowid\<close>, \<open>oid\<close> and \<open>_rowid_\<close> name a column of each.
\<close>

definition dquote :: char where
  "dquote = CHR 0x22"

definition ascii_lower :: "char \<Rightarrow> char" where
  "ascii_lower c =
     (if CHR ''A'' \<le> c \<and> c \<le> CHR ''Z'' then char_of (of_char c + (32 :: nat)) else c)"

definition column_names :: "database \<Rightarrow> string list" where
  "column_names db =
     [''id'', ''name'', ''type'', ''serialization_format'',
      ''topic_id'', ''timestamp'', ''data'',
      ''rowid'', ''oid'', ''_rowid_''] @ more_columns db"

definition names_column :: "database \<Rightarrow> string \<Rightarrow> bool" where
  "names_column db n =
     (map ascii_lower n \<in> set (map (map ascii_lower) (column_names db)))"

text \<open>The names that the engine reads as a string, the whole name and nothing else.\<close>

definition read_as_string :: "database \<Rightarrow> string \<Rightarrow> bool" where
  "read_as_string db n =
     (dquote \<notin> set n \<and> CHR 0x00 \<notin> set n \<and> \<not> names_column db n)"

text \<open>
  The condition on the topic that the engine reads out of the text: none when no topic is
  requested; the comparison with a string; or, for a name \<open>a" OR topics.name="b\<close>, the
  text \<open>topics.name="a" OR topics.name="b"AND ...\<close>, in which \<open>AND\<close> binds the time
  condition to the second comparison only.
\<close>

datatype topic_filter =
    No_Topic
  | Name_Is string
  | Name_Is_Or string string

definition or_injection :: string where
  "or_injection = [dquote] @ '' OR topics.name='' @ [dquote]"

text \<open>
  The reading of a requested name. Other names (with a quote elsewhere, with a NUL, or
  naming a column) are not read here: \<open>None\<close>.
\<close>

definition read_topic :: "database \<Rightarrow> string \<Rightarrow> topic_filter option" where
  "read_topic db n =
     (if read_as_string db n then Some (Name_Is n)
      else
        (let a = takeWhile (\<lambda>c. c \<noteq> dquote) n;
             rest = dropWhile (\<lambda>c. c \<noteq> dquote) n;
             b = drop (length or_injection) rest
         in if take (length or_injection) rest = or_injection \<and>
               read_as_string db a \<and> read_as_string db b
            then Some (Name_Is_Or a b) else None))"

fun where_clause :: "topic_filter \<Rightarrow> sql_query \<Rightarrow> Entry \<Rightarrow> bool" where
  "where_clause No_Topic q e = where_timestamp q (timestamp e)"
| "where_clause (Name_Is n) q e = (topic e = n \<and> where_timestamp q (timestamp e))"
| "where_clause (Name_Is_Or a b) q e =
     (topic e = a \<or> topic e = b \<and> where_timestamp q (timestamp e))"

subsubsection \<open>The engine\<close>

text \<open>
  What the model leaves to the engine. SQL does not say in which order rows of equal
  timestamp come: \<open>row_rank\<close> ranks the matching rows, given by their position in the join,
  and decides between them. For a query text whose topic is not read above, \<open>unread\<close> is
  the engine's answer, rows or an error.
\<close>

record sqlite3 =
  row_rank :: "nat \<Rightarrow> nat"
  unread :: "string \<Rightarrow> sql_query \<Rightarrow> database \<Rightarrow> error + Entry list"

text \<open>
  \<open>ORDER BY messages.timestamp\<close>: by timestamp, and by rank among equal timestamps.
\<close>

definition order_by :: "(nat \<Rightarrow> nat) \<Rightarrow> Entry list \<Rightarrow> Entry list" where
  "order_by rank rows =
     map snd (sort_key (timestamp \<circ> snd) (sort_key (rank \<circ> fst) (enumerate 0 rows)))"

text \<open>\<open>ORDER BY\<close> with \<open>DESC\<close> or not, and \<open>LIMIT 1\<close> or not.\<close>

fun order_limit :: "(nat \<Rightarrow> nat) \<Rightarrow> sql_query \<Rightarrow> Entry list \<Rightarrow> Entry list" where
  "order_limit rank (Le_Desc_Limit1 t) rows = take 1 (rev (order_by rank rows))"
| "order_limit rank (Gt_Asc_Limit1 t) rows = take 1 (order_by rank rows)"
| "order_limit rank (Between_Asc t0 t1) rows = order_by rank rows"

definition run_query :: "sqlite3 \<Rightarrow> database \<Rightarrow> sql_query \<Rightarrow> topic_filter \<Rightarrow> Entry list" where
  "run_query sql db q f =
     order_limit (row_rank sql) q (filter (where_clause f q) (joined_rows db))"

text \<open>
  \<open>_execute_sql_query\<close>; \<open>db\<close> is the content of the file \<open>db_name\<close>. A topic that is
  requested and not in \<open>topic_metadata_map\<close> gives the empty list before the database is
  touched.
\<close>

definition execute_sql_query ::
    "Rosbag2 \<Rightarrow> sqlite3 \<Rightarrow> database \<Rightarrow> sql_query \<Rightarrow> string option \<Rightarrow> error + Entry list" where
  "execute_sql_query self sql db q tp =
     (case tp of
        Some n \<Rightarrow>
          (case topic_metadata_map self of
             None \<Rightarrow> Inl AttributeError
           | Some m \<Rightarrow>
               if n \<notin> set (map fst m) then Inr []
               else
                 (case db_name self of
                    None \<Rightarrow> Inl AttributeError
                  | Some _ \<Rightarrow>
                      (case read_topic db n of
                         None \<Rightarrow> unread sql n q db
                       | Some f \<Rightarrow> Inr (run_query sql db q f))))
      | None \<Rightarrow>
          (case db_name self of
             None \<Rightarrow> Inl AttributeError
           | Some _ \<Rightarrow> Inr (run_query sql db q No_Topic)))"

text \<open>
  \<open>result[0] if result else None\<close>. In the three retrieval methods below a time argument
  is the \<open>nanoseconds\<close> of the \<open>Time\<close> object passed, and the topic is \<open>None\<close> when no topic
  is requested.
\<close>

definition first_or_none :: "'a list \<Rightarrow> 'a option" where
  "first_or_none result = (case result of [] \<Rightarrow> None | e # _ \<Rightarrow> Some e)"

definition get_entry ::
    "Rosbag2 \<Rightarrow> sqlite3 \<Rightarrow> database \<Rightarrow> int \<Rightarrow> string option \<Rightarrow> error + Entry option" where
  "get_entry self sql db t tp =
     (case reader self of
        None \<Rightarrow> Inr None
      | Some _ \<Rightarrow>
          (case execute_sql_query self sql db (Le_Desc_Limit1 t) tp of
             Inl e \<Rightarrow> Inl e
           | Inr result \<Rightarrow> Inr (first_or_none result)))"

definition get_entry_after ::
    "Rosbag2 \<Rightarrow> sqlite3 \<Rightarrow> database \<Rightarrow> int \<Rightarrow> string option \<Rightarrow> error + Entry option" where
  "get_entry_after self sql db t tp =
     (case reader self of
        None \<Rightarrow> Inr None
      | Some _ \<Rightarrow>
          (case execute_sql_query self sql db (Gt_Asc_Limit1 t) tp of
             Inl e \<Rightarrow> Inl e
           | Inr result \<Rightarrow> Inr (first_or_none result)))"

text \<open>The range query returns \<open>None\<close> when recording and the list of rows otherwise.\<close>

definition get_entries_in_range ::
    "Rosbag2 \<Rightarrow> sqlite3 \<Rightarrow> database \<Rightarrow> int \<Rightarrow> int \<Rightarrow> string option
      \<Rightarrow> error + Entry list option" where
  "get_entries_in_range self sql db t_start t_end tp =
     (case reader self of
        None \<Rightarrow> Inr None
      | Some _ \<Rightarrow>
          (case execute_sql_query self sql db (Between_Asc t_start t_end) tp of
             Inl e \<Rightarrow> Inl e
           | Inr result \<Rightarrow> Inr (Some result)))"

subsection \<open>Notions for the retrieval properties\<close>

text \<open>
  The entries that a database file stores, read off its two tables: one for each message
  and its topic; all of them, or those of one topic.
\<close>

definition stored_entries :: "database \<Rightarrow> string option \<Rightarrow> Entry list" where
  "stored_entries db tp =
     [\<lparr>topic = topics_name tr, data = messages_data m, timestamp = messages_timestamp m\<rparr>.
        m \<leftarrow> messages db, tr \<leftarrow> topics db,
        topics_id tr = messages_topic_id m, tp = None \<or> tp = Some (topics_name tr)]"

text \<open>
  A result is the latest entry at or before a time, or the earliest one after it; \<open>None\<close>
  stands for the absent result.
\<close>

definition is_latest_at_or_before :: "Entry list \<Rightarrow> int \<Rightarrow> Entry option \<Rightarrow> bool" where
  "is_latest_at_or_before es t r =
     (case r of
        None \<Rightarrow> \<forall>e \<in> set es. \<not> timestamp e \<le> t
      | Some e \<Rightarrow> e \<in> set es \<and> timestamp e \<le> t \<and>
          (\<forall>e' \<in> set es. timestamp e' \<le> t \<longrightarrow> timestamp e' \<le> timestamp e))"

definition is_earliest_after :: "Entry list \<Rightarrow> int \<Rightarrow> Entry option \<Rightarrow> bool" where
  "is_earliest_after es t r =
     (case r of
        None \<Rightarrow> \<forall>e \<in> set es. \<not> timestamp e > t
      | Some e \<Rightarrow> e \<in> set es \<and> timestamp e > t \<and>
          (\<forall>e' \<in> set es. timestamp e' > t \<longrightarrow> timestamp e \<le> timestamp e'))"

subsection \<open>Small bags\<close>

text \<open>
  Two topics, \<open>/a\<close> of type \<open>TypeX\<close> with messages at 10, 20, 20 and 30, and \<open>/b\<close> of type
  \<open>TypeY\<close> without messages; once opened for reading, once for recording. The engine ranks
  rows as they stand in the table.
\<close>

definition scenario_metadata :: BagMetadata where
  "scenario_metadata =
     \<lparr>bag_size = 4096, relative_file_paths = [''scenario_0.db3''],
      starting_time = 10, duration = 20,
      topics_with_message_count =
        [\<lparr>topic_metadata = \<lparr>name = ''/a'', type = ''TypeX'', serialization_format = ''cdr''\<rparr>,
          message_count = 4\<rparr>,
         \<lparr>topic_metadata = \<lparr>name = ''/b'', type = ''TypeY'', serialization_format = ''cdr''\<rparr>,
          message_count = 0\<rparr>]\<rparr>"

definition scenario_db :: database where
  "scenario_db =
     \<lparr>topics =
        [\<lparr>topics_id = 1, topics_name = ''/a'', topics_type = ''TypeX'',
          topics_serialization_format = ''cdr''\<rparr>,
         \<lparr>topics_id = 2, topics_name = ''/b'', topics_type = ''TypeY'',
          topics_serialization_format = ''cdr''\<rparr>],
      messages =
        [\<lparr>messages_id = 1, messages_topic_id = 1, messages_timestamp = 10, messages_data = [1]\<rparr>,
         \<lparr>messages_id = 2, messages_topic_id = 1, messages_timestamp = 20, messages_data = [2]\<rparr>,
         \<lparr>messages_id = 3, messages_topic_id = 1, messages_timestamp = 20, messages_data = [3]\<rparr>,
         \<lparr>messages_id = 4, messages_topic_id = 1, messages_timestamp = 30, messages_data = [4]\<rparr>],
      more_columns = [''offered_qos_profiles'']\<rparr>"

definition scenario_sqlite3 :: sqlite3 where
  "scenario_sqlite3 = \<lparr>row_rank = (\<lambda>i. i), unread = (\<lambda>n q db. Inl OperationalError)\<rparr>"

definition scenario_bag :: Rosbag2 where
  "scenario_bag =
     \<lparr>bag_path = ''scenario'', reader = Some SequentialReader,
      metadata = Some scenario_metadata, db_name = Some ''scenario/scenario_0.db3'',
      topic_metadata_map =
        Some [(''/a'', \<lparr>name = ''/a'', type = ''TypeX'', serialization_format = ''cdr''\<rparr>),
              (''/b'', \<lparr>name = ''/b'', type = ''TypeY'', serialization_format = ''cdr''\<rparr>)]\<rparr>"

definition recording_bag :: Rosbag2 where
  "recording_bag =
     \<lparr>bag_path = ''scenario'', reader = None, metadata = None, db_name = None,
      topic_metadata_map = None\<rparr>"

text \<open>The same database under metadata that lists \<open>/b\<close> only.\<close>

definition partial_metadata :: BagMetadata where
  "partial_metadata =
     \<lparr>bag_size = 4096, relative_file_paths = [''scenario_0.db3''],
      starting_time = 10, duration = 20,
      topics_with_message_count =
        [\<lparr>topic_metadata = \<lparr>name = ''/b'', type = ''TypeY'', serialization_format = ''cdr''\<rparr>,
          message_count = 0\<rparr>]\<rparr>"

definition partial_bag :: Rosbag2 where
  "partial_bag =
     \<lparr>bag_path = ''scenario'', reader = Some SequentialReader,
      metadata = Some partial_metadata, db_name = Some ''scenario/scenario_0.db3'',
      topic_metadata_map =
        Some [(''/b'', \<lparr>name = ''/b'', type = ''TypeY'', serialization_format = ''cdr''\<rparr>)]\<rparr>"

text \<open>
  The same database under metadata that lists a topic with the name
  \<open>/a" OR topics.name="/a\<close>.
\<close>

definition injected_name :: string where
  "injected_name = ''/a'' @ or_injection @ ''/a''"

definition injected_metadata :: BagMetadata where
  "injected_metadata =
     \<lparr>bag_size = 4096, relative_file_paths = [''scenario_0.db3''],
      starting_time = 10, duration = 20,
      topics_with_message_count =
        [\<lparr>topic_metadata =
            \<lparr>name = injected_name, type = ''TypeX'', serialization_format = ''cdr''\<rparr>,
          message_count = 4\<rparr>]\<rparr>"

definition injected_bag :: Rosbag2 where
  "injected_bag =
     \<lparr>bag_path = ''scenario'', reader = Some SequentialReader,
      metadata = Some injected_metadata, db_name = Some ''scenario/scenario_0.db3'',
      topic_metadata_map =
        Some [(injected_name,
               \<lparr>name = injected_name, type = ''TypeX'', serialization_format = ''cdr''\<rparr>)]\<rparr>"

text \<open>
  A bag split into two files: the first is the database above, the second holds one
  message of \<open>/a\<close> at 5 and one at 40.
\<close>

definition split_metadata :: BagMetadata where
  "split_metadata =
     \<lparr>bag_size = 8192, relative_file_paths = [''scenario_0.db3'', ''scenario_1.db3''],
      starting_time = 5, duration = 35,
      topics_with_message_count =
        [\<lparr>topic_metadata = \<lparr>name = ''/a'', type = ''TypeX'', serialization_format = ''cdr''\<rparr>,
          message_count = 6\<rparr>,
         \<lparr>topic_metadata = \<lparr>name = ''/b'', type = ''TypeY'', serialization_format = ''cdr''\<rparr>,
          message_count = 0\<rparr>]\<rparr>"

definition split_db_1 :: database where
  "split_db_1 =
     \<lparr>topics =
        [\<lparr>topics_id = 1, topics_name = ''/a'', topics_type = ''TypeX'',
          topics_serialization_format = ''cdr''\<rparr>],
      messages =
        [\<lparr>messages_id = 1, messages_topic_id = 1, messages_timestamp = 5, messages_data = [5]\<rparr>,
         \<lparr>messages_id = 2, messages_topic_id = 1, messages_timestamp = 40, messages_data = [6]\<rparr>],
      more_columns = [''offered_qos_profiles'']\<rparr>"

definition split_bag :: Rosbag2 where
  "split_bag =
     \<lparr>bag_path = ''scenario'', reader = Some SequentialReader,
      metadata = Some split_metadata, db_name = Some ''scenario/scenario_0.db3'',
      topic_metadata_map =
        Some [(''/a'', \<lparr>name = ''/a'', type = ''TypeX'', serialization_format = ''cdr''\<rparr>),
              (''/b'', \<lparr>name = ''/b'', type = ''TypeY'', serialization_format = ''cdr''\<rparr>)]\<rparr>"

section \<open>Properties\<close>

subsection \<open>Opening\<close>

lemma init_scenario: "Rosbag2_init ''scenario'' False scenario_metadata = Inr scenario_bag"
  by (simp add: Rosbag2_init_def scenario_metadata_def scenario_bag_def os_path_join_def
      build_topic_metadata_map_def)

lemma init_recording: "Rosbag2_init ''scenario'' True scenario_metadata = Inr recording_bag"
  by (simp add: Rosbag2_init_def recording_bag_def)

lemma init_partial: "Rosbag2_init ''scenario'' False partial_metadata = Inr partial_bag"
  by (simp add: Rosbag2_init_def partial_metadata_def partial_bag_def os_path_join_def
      build_topic_metadata_map_def)

lemma init_injected: "Rosbag2_init ''scenario'' False injected_metadata = Inr injected_bag"
  by (simp add: Rosbag2_init_def injected_metadata_def injected_bag_def os_path_join_def
      build_topic_metadata_map_def)

lemma init_split: "Rosbag2_init ''scenario'' False split_metadata = Inr split_bag"
  by (simp add: Rosbag2_init_def split_metadata_def split_bag_def os_path_join_def
      build_topic_metadata_map_def)

lemma init_recording_eq:
  "Rosbag2_init path True md = Inr self \<Longrightarrow>
   reader self = None \<and> metadata self = None \<and> db_name self = None \<and>
   topic_metadata_map self = None"
  by (auto simp: Rosbag2_init_def)

lemma init_reading_eq:
  "Rosbag2_init path False md = Inr self \<Longrightarrow>
   reader self = Some SequentialReader \<and> metadata self = Some md \<and>
   (\<exists>p. db_name self = Some p) \<and>
   topic_metadata_map self = Some (build_topic_metadata_map (topics_with_message_count md))"
  by (auto simp: Rosbag2_init_def split: list.splits)

lemma get_topics_reading:
  assumes "Rosbag2_init path False md = Inr self"
  shows "get_topics self =
     Inr (sort (map fst (build_topic_metadata_map (topics_with_message_count md))))"
  using init_reading_eq [OF assms] by (simp add: get_topics_def)

lemma catalog_names:
  assumes "Rosbag2_init path False md = Inr self" and "get_topics self = Inr names"
  shows "set names = set (map fst (build_topic_metadata_map (topics_with_message_count md)))"
proof -
  from assms(2) have "names = sort (map fst (build_topic_metadata_map (topics_with_message_count md)))"
    unfolding get_topics_reading [OF assms(1)] by simp
  then show ?thesis by simp
qed

lemma scenario_topics: "get_topics scenario_bag = Inr [''/a'', ''/b'']"
  by code_simp

subsection \<open>Ordered rows\<close>

lemma set_order_by: "set (order_by rank rows) = set rows"
proof -
  let ?zs = "enumerate 0 rows"
  have "set (order_by rank rows) = snd ` set ?zs"
    by (simp add: order_by_def)
  also have "snd ` set ?zs = set (map snd ?zs)"
    by (rule set_map [symmetric])
  also have "map snd ?zs = rows"
    by (rule map_snd_enumerate)
  finally show ?thesis .
qed

lemma sorted_order_by: "sorted (map timestamp (order_by rank rows))"
proof -
  have "map timestamp (order_by rank rows) =
      map (timestamp \<circ> snd) (sort_key (timestamp \<circ> snd)
        (sort_key (rank \<circ> fst) (enumerate 0 rows)))"
    by (simp add: order_by_def)
  then show ?thesis
    by (simp only: sorted_sort_key)
qed

lemma order_by_empty: "order_by rank rows = [] \<longleftrightarrow> rows = []"
  using set_order_by [of rank rows] by (metis set_empty)

lemma first_or_none_rev:
  "first_or_none (take 1 (rev ys)) = (if ys = [] then None else Some (last ys))"
  by (cases ys rule: rev_cases) (simp_all add: first_or_none_def)

lemma first_or_none_take:
  "first_or_none (take 1 ys) = (if ys = [] then None else Some (hd ys))"
  by (cases ys) (simp_all add: first_or_none_def)

lemma sorted_last_greatest:
  fixes f :: "'a \<Rightarrow> int"
  assumes "sorted (map f ys)" and "y \<in> set ys"
  shows "f y \<le> f (last ys)"
proof -
  from assms(2) obtain zs z where c: "ys = zs @ [z]"
    by (cases ys rule: rev_cases) auto
  from assms show ?thesis
    unfolding c by (auto simp: sorted_append)
qed

lemma sorted_hd_least:
  fixes f :: "'a \<Rightarrow> int"
  assumes "sorted (map f ys)" and "y \<in> set ys"
  shows "f (hd ys) \<le> f y"
proof -
  from assms(2) obtain z zs where c: "ys = z # zs"
    by (cases ys) auto
  from assms show ?thesis
    unfolding c by auto
qed

text \<open>The first row of the descending order and of the ascending order.\<close>

lemma latest_of_rows:
  assumes "set rows = {e \<in> set es. timestamp e \<le> t}"
  shows "is_latest_at_or_before es t (first_or_none (take 1 (rev (order_by rank rows))))"
proof (cases "rows = []")
  case True
  with assms have "\<forall>e \<in> set es. \<not> timestamp e \<le> t"
    by auto
  moreover from True have "order_by rank rows = []"
    by (simp add: order_by_empty)
  ultimately show ?thesis
    by (simp add: first_or_none_def is_latest_at_or_before_def)
next
  case False
  let ?ys = "order_by rank rows"
  from False have ne: "?ys \<noteq> []"
    by (simp add: order_by_empty)
  then have "last ?ys \<in> set ?ys"
    by (rule last_in_set)
  then have l: "last ?ys \<in> set es" "timestamp (last ?ys) \<le> t"
    using assms by (simp_all add: set_order_by)
  have "timestamp e \<le> timestamp (last ?ys)" if "e \<in> set es" "timestamp e \<le> t" for e
  proof -
    from that assms have "e \<in> set ?ys"
      by (simp add: set_order_by)
    with sorted_order_by show ?thesis
      by (rule sorted_last_greatest)
  qed
  with l ne show ?thesis
    unfolding first_or_none_rev by (simp add: is_latest_at_or_before_def)
qed

lemma earliest_of_rows:
  assumes "set rows = {e \<in> set es. timestamp e > t}"
  shows "is_earliest_after es t (first_or_none (take 1 (order_by rank rows)))"
proof (cases "rows = []")
  case True
  with assms have "\<forall>e \<in> set es. \<not> timestamp e > t"
    by auto
  moreover from True have "order_by rank rows = []"
    by (simp add: order_by_empty)
  ultimately show ?thesis
    by (simp add: first_or_none_def is_earliest_after_def)
next
  case False
  let ?ys = "order_by rank rows"
  from False have ne: "?ys \<noteq> []"
    by (simp add: order_by_empty)
  then have "hd ?ys \<in> set ?ys"
    by (rule hd_in_set)
  then have l: "hd ?ys \<in> set es" "timestamp (hd ?ys) > t"
    using assms by (simp_all add: set_order_by)
  have "timestamp (hd ?ys) \<le> timestamp e" if "e \<in> set es" "timestamp e > t" for e
  proof -
    from that assms have "e \<in> set ?ys"
      by (simp add: set_order_by)
    with sorted_order_by show ?thesis
      by (rule sorted_hd_least)
  qed
  with l ne show ?thesis
    unfolding first_or_none_take by (simp add: is_earliest_after_def)
qed

subsection \<open>The rows of the join are the stored entries\<close>

lemma set_joined_rows: "set (joined_rows db) = set (stored_entries db None)"
  by (auto simp: joined_rows_def stored_entries_def; force)

lemma set_stored_entries_topic:
  "set (stored_entries db (Some n)) = {e \<in> set (stored_entries db None). topic e = n}"
  by (auto simp: stored_entries_def; force)

lemma rows_no_topic:
  "set (filter (where_clause No_Topic q) (joined_rows db)) =
     {e \<in> set (stored_entries db None). where_timestamp q (timestamp e)}"
  by (auto simp: set_joined_rows)

lemma rows_of_topic:
  "set (filter (where_clause (Name_Is n) q) (joined_rows db)) =
     {e \<in> set (stored_entries db (Some n)). where_timestamp q (timestamp e)}"
  by (auto simp: set_joined_rows set_stored_entries_topic)

lemma read_topic_string: "read_as_string db n \<Longrightarrow> read_topic db n = Some (Name_Is n)"
  by (simp add: read_topic_def)

text \<open>What \<open>_execute_sql_query\<close> runs on a bag opened for reading.\<close>

lemma execute_no_topic:
  assumes "Rosbag2_init path False md = Inr self"
  shows "execute_sql_query self sql db q None = Inr (run_query sql db q No_Topic)"
  using init_reading_eq [OF assms] by (auto simp: execute_sql_query_def)

lemma execute_catalogued:
  assumes "Rosbag2_init path False md = Inr self" and "get_topics self = Inr names"
    and "n \<in> set names" and "read_as_string db n"
  shows "execute_sql_query self sql db q (Some n) = Inr (run_query sql db q (Name_Is n))"
  using init_reading_eq [OF assms(1)] catalog_names [OF assms(1,2)] assms(3)
    read_topic_string [OF assms(4)]
  by (auto simp: execute_sql_query_def)

lemma execute_uncatalogued:
  assumes "Rosbag2_init path False md = Inr self" and "get_topics self = Inr names"
    and "n \<notin> set names"
  shows "execute_sql_query self sql db q (Some n) = Inr []"
  using init_reading_eq [OF assms(1)] catalog_names [OF assms(1,2)] assms(3)
  by (auto simp: execute_sql_query_def)

subsection \<open>Time bounds\<close>

text \<open>
  C8. For a bag opened for reading, \<open>get_latest_timestamp\<close> is \<open>get_earliest_timestamp\<close>
  plus the duration in the bag's metadata, as a sum of integers; neither call raises.
\<close>

theorem latest_timestamp_is_earliest_plus_duration:
  assumes "Rosbag2_init path False md = Inr self"
  shows "\<exists>earliest. get_earliest_timestamp self = Inr earliest \<and>
           metadata self = Some md \<and>
           get_latest_timestamp self = Inr (earliest + duration md)"
  using init_reading_eq [OF assms]
  by (simp add: get_earliest_timestamp_def get_latest_timestamp_def)

theorem latest_timestamp_is_earliest_plus_duration_witness:
  "Rosbag2_init ''scenario'' False scenario_metadata = Inr scenario_bag \<and>
   get_earliest_timestamp scenario_bag = Inr 10 \<and>
   duration scenario_metadata = 20 \<and>
   get_latest_timestamp scenario_bag = Inr 30"
proof -
  have e: "get_earliest_timestamp scenario_bag = Inr 10"
    by (simp add: get_earliest_timestamp_def scenario_bag_def scenario_metadata_def)
  have d: "duration scenario_metadata = 20"
    by (simp add: scenario_metadata_def)
  from latest_timestamp_is_earliest_plus_duration [OF init_scenario] e d
  have "get_latest_timestamp scenario_bag = Inr 30"
    by auto
  with init_scenario e d show ?thesis
    by simp
qed

subsection \<open>Point lookups\<close>

text \<open>
  C1, as the code has it. For a bag opened for reading and a time \<open>t\<close>: when no topic is
  given, or the topic is in the catalog and its name is one the engine reads as a string,
  \<open>get_entry\<close> returns without raising; among the entries stored in the database file that
  the handle reads (those of the topic, when one is given) with a timestamp at most \<open>t\<close> it
  returns one with the greatest timestamp, and it returns \<open>None\<close> exactly when there is no
  such entry. When the topic is not in the catalog, \<open>get_entry\<close> returns \<open>None\<close>.
\<close>

theorem get_entry_latest_at_or_before:
  assumes "Rosbag2_init path False md = Inr self" and "get_topics self = Inr names"
  shows "(tp = None \<or> (\<exists>n. tp = Some n \<and> n \<in> set names \<and> read_as_string db n) \<longrightarrow>
            (\<exists>r. get_entry self sql db t tp = Inr r \<and>
                 is_latest_at_or_before (stored_entries db tp) t r)) \<and>
         (\<forall>n. tp = Some n \<and> n \<notin> set names \<longrightarrow> get_entry self sql db t tp = Inr None)"
proof -
  note rd = init_reading_eq [OF assms(1)]
  let ?q = "Le_Desc_Limit1 t"
  have found: "\<exists>r. get_entry self sql db t tp = Inr r \<and>
      is_latest_at_or_before (stored_entries db tp) t r"
    if ex: "execute_sql_query self sql db ?q tp = Inr (run_query sql db ?q f)"
      and rows: "set (filter (where_clause f ?q) (joined_rows db)) =
        {e \<in> set (stored_entries db tp). timestamp e \<le> t}" for f
  proof -
    from rd ex have "get_entry self sql db t tp =
        Inr (first_or_none (take 1 (rev (order_by (row_rank sql)
          (filter (where_clause f ?q) (joined_rows db))))))"
      by (simp add: get_entry_def run_query_def)
    with latest_of_rows [OF rows, of "row_rank sql"] show ?thesis
      by blast
  qed
  have none: "\<exists>r. get_entry self sql db t tp = Inr r \<and>
      is_latest_at_or_before (stored_entries db tp) t r" if "tp = None"
    using found [of No_Topic] execute_no_topic [OF assms(1)] rows_no_topic [of ?q db] that
    by simp
  have lit: "\<exists>r. get_entry self sql db t tp = Inr r \<and>
      is_latest_at_or_before (stored_entries db tp) t r"
    if "tp = Some n" "n \<in> set names" "read_as_string db n" for n
    using found [of "Name_Is n"] execute_catalogued [OF assms that(2,3)]
      rows_of_topic [of n ?q db] that(1)
    by simp
  have unknown: "get_entry self sql db t tp = Inr None" if "tp = Some n" "n \<notin> set names" for n
    using rd execute_uncatalogued [OF assms that(2)] that(1)
    by (simp add: get_entry_def first_or_none_def)
  from none lit unknown show ?thesis
    by blast
qed

theorem get_entry_latest_at_or_before_witness:
  "Rosbag2_init ''scenario'' False scenario_metadata = Inr scenario_bag \<and>
   get_topics scenario_bag = Inr [''/a'', ''/b''] \<and>
   read_as_string scenario_db ''/a'' \<and>
   get_entry scenario_bag scenario_sqlite3 scenario_db 20 (Some ''/a'') =
     Inr (Some \<lparr>topic = ''/a'', data = [3], timestamp = 20\<rparr>) \<and>
   is_latest_at_or_before (stored_entries scenario_db (Some ''/a'')) 20
     (Some \<lparr>topic = ''/a'', data = [3], timestamp = 20\<rparr>) \<and>
   get_entry scenario_bag scenario_sqlite3 scenario_db 20 (Some ''/c'') = Inr None"
proof -
  have s: "read_as_string scenario_db ''/a''"
    by code_simp
  have g: "get_entry scenario_bag scenario_sqlite3 scenario_db 20 (Some ''/a'') =
      Inr (Some \<lparr>topic = ''/a'', data = [3], timestamp = 20\<rparr>)"
    by code_simp
  have a: "''/a'' \<in> set [''/a'', ''/b'']" and c: "''/c'' \<notin> set [''/a'', ''/b'']"
    by simp_all
  note th = get_entry_latest_at_or_before [OF init_scenario scenario_topics,
      of _ scenario_db scenario_sqlite3 20]
  from th [of "Some ''/a''"] a s g
  have l: "is_latest_at_or_before (stored_entries scenario_db (Some ''/a'')) 20
      (Some \<lparr>topic = ''/a'', data = [3], timestamp = 20\<rparr>)"
    by auto
  from th [of "Some ''/c''"] c
  have n: "get_entry scenario_bag scenario_sqlite3 scenario_db 20 (Some ''/c'') = Inr None"
    by blast
  from init_scenario scenario_topics s g l n show ?thesis
    by blast
qed

text \<open>
  Where the statement without these conditions fails. Under metadata that lists \<open>/b\<close> only,
  \<open>get_entry\<close> at 20 for \<open>/a\<close> returns \<open>None\<close> though an entry of \<open>/a\<close> at 20 is stored.
  For the catalogued name \<open>/a" OR topics.name="/a\<close>, \<open>get_entry\<close> at 5 returns the entry
  at 30. In a bag of two files, \<open>get_entry\<close> at 40 returns the entry at 30 of the first
  file though the second stores an entry at 40.
\<close>

theorem get_entry_not_latest:
  "Rosbag2_init ''scenario'' False partial_metadata = Inr partial_bag \<and>
   get_entry partial_bag scenario_sqlite3 scenario_db 20 (Some ''/a'') = Inr None \<and>
   \<lparr>topic = ''/a'', data = [3], timestamp = 20\<rparr> \<in> set (stored_entries scenario_db (Some ''/a'')) \<and>
   Rosbag2_init ''scenario'' False injected_metadata = Inr injected_bag \<and>
   get_entry injected_bag scenario_sqlite3 scenario_db 5 (Some injected_name) =
     Inr (Some \<lparr>topic = ''/a'', data = [4], timestamp = 30\<rparr>) \<and>
   Rosbag2_init ''scenario'' False split_metadata = Inr split_bag \<and>
   db_name split_bag = Some ''scenario/scenario_0.db3'' \<and>
   get_entry split_bag scenario_sqlite3 scenario_db 40 None =
     Inr (Some \<lparr>topic = ''/a'', data = [4], timestamp = 30\<rparr>) \<and>
   \<lparr>topic = ''/a'', data = [6], timestamp = 40\<rparr> \<in> set (stored_entries split_db_1 None)"
proof -
  have 1: "get_entry partial_bag scenario_sqlite3 scenario_db 20 (Some ''/a'') = Inr None"
    by code_simp
  have 2: "\<lparr>topic = ''/a'', data = [3], timestamp = 20\<rparr>
      \<in> set (stored_entries scenario_db (Some ''/a''))"
    by code_simp
  have 3: "get_entry injected_bag scenario_sqlite3 scenario_db 5 (Some injected_name) =
      Inr (Some \<lparr>topic = ''/a'', data = [4], timestamp = 30\<rparr>)"
    by code_simp
  have 4: "db_name split_bag = Some ''scenario/scenario_0.db3''"
    by (simp add: split_bag_def)
  have 5: "get_entry split_bag scenario_sqlite3 scenario_db 40 None =
      Inr (Some \<lparr>topic = ''/a'', data = [4], timestamp = 30\<rparr>)"
    by code_simp
  have 6: "\<lparr>topic = ''/a'', data = [6], timestamp = 40\<rparr> \<in> set (stored_entries split_db_1 None)"
    by code_simp
  from init_partial 1 2 init_injected 3 init_split 4 5 6 show ?thesis
    by blast
qed

text \<open>
  C2, as the code has it. For a bag opened for reading and a time \<open>t\<close>: when no topic is
  given, or the topic is in the catalog and its name is one the engine reads as a string,
  \<open>get_entry_after\<close> returns without raising; among the entries stored in the database
  file that the handle reads (those of the topic, when one is given) with a timestamp
  greater than \<open>t\<close> it returns one with the least timestamp, and it returns \<open>None\<close> exactly
  when there is no such entry. When the topic is not in the catalog, \<open>get_entry_after\<close>
  returns \<open>None\<close>.
\<close>

theorem get_entry_after_earliest_after:
  assumes "Rosbag2_init path False md = Inr self" and "get_topics self = Inr names"
  shows "(tp = None \<or> (\<exists>n. tp = Some n \<and> n \<in> set names \<and> read_as_string db n) \<longrightarrow>
            (\<exists>r. get_entry_after self sql db t tp = Inr r \<and>
                 is_earliest_after (stored_entries db tp) t r)) \<and>
         (\<forall>n. tp = Some n \<and> n \<notin> set names \<longrightarrow> get_entry_after self sql db t tp = Inr None)"
proof -
  note rd = init_reading_eq [OF assms(1)]
  let ?q = "Gt_Asc_Limit1 t"
  have found: "\<exists>r. get_entry_after self sql db t tp = Inr r \<and>
      is_earliest_after (stored_entries db tp) t r"
    if ex: "execute_sql_query self sql db ?q tp = Inr (run_query sql db ?q f)"
      and rows: "set (filter (where_clause f ?q) (joined_rows db)) =
        {e \<in> set (stored_entries db tp). timestamp e > t}" for f
  proof -
    from rd ex have "get_entry_after self sql db t tp =
        Inr (first_or_none (take 1 (order_by (row_rank sql)
          (filter (where_clause f ?q) (joined_rows db)))))"
      by (simp add: get_entry_after_def run_query_def)
    with earliest_of_rows [OF rows, of "row_rank sql"] show ?thesis
      by blast
  qed
  have none: "\<exists>r. get_entry_after self sql db t tp = Inr r \<and>
      is_earliest_after (stored_entries db tp) t r" if "tp = None"
    using found [of No_Topic] execute_no_topic [OF assms(1)] rows_no_topic [of ?q db] that
    by simp
  have lit: "\<exists>r. get_entry_after self sql db t tp = Inr r \<and>
      is_earliest_after (stored_entries db tp) t r"
    if "tp = Some n" "n \<in> set names" "read_as_string db n" for n
    using found [of "Name_Is n"] execute_catalogued [OF assms that(2,3)]
      rows_of_topic [of n ?q db] that(1)
    by simp
  have unknown: "get_entry_after self sql db t tp = Inr None"
    if "tp = Some n" "n \<notin> set names" for n
    using rd execute_uncatalogued [OF assms that(2)] that(1)
    by (simp add: get_entry_after_def first_or_none_def)
  from none lit unknown show ?thesis
    by blast
qed

theorem get_entry_after_earliest_after_witness:
  "Rosbag2_init ''scenario'' False scenario_metadata = Inr scenario_bag \<and>
   get_topics scenario_bag = Inr [''/a'', ''/b''] \<and>
   read_as_string scenario_db ''/a'' \<and>
   get_entry_after scenario_bag scenario_sqlite3 scenario_db 20 (Some ''/a'') =
     Inr (Some \<lparr>topic = ''/a'', data = [4], timestamp = 30\<rparr>) \<and>
   is_earliest_after (stored_entries scenario_db (Some ''/a'')) 20
     (Some \<lparr>topic = ''/a'', data = [4], timestamp = 30\<rparr>) \<and>
   get_entry_after scenario_bag scenario_sqlite3 scenario_db 20 (Some ''/c'') = Inr None"
proof -
  have s: "read_as_string scenario_db ''/a''"
    by code_simp
  have g: "get_entry_after scenario_bag scenario_sqlite3 scenario_db 20 (Some ''/a'') =
      Inr (Some \<lparr>topic = ''/a'', data = [4], timestamp = 30\<rparr>)"
    by code_simp
  have a: "''/a'' \<in> set [''/a'', ''/b'']" and c: "''/c'' \<notin> set [''/a'', ''/b'']"
    by simp_all
  note th = get_entry_after_earliest_after [OF init_scenario scenario_topics,
      of _ scenario_db scenario_sqlite3 20]
  from th [of "Some ''/a''"] a s g
  have l: "is_earliest_after (stored_entries scenario_db (Some ''/a'')) 20
      (Some \<lparr>topic = ''/a'', data = [4], timestamp = 30\<rparr>)"
    by auto
  from th [of "Some ''/c''"] c
  have n: "get_entry_after scenario_bag scenario_sqlite3 scenario_db 20 (Some ''/c'') = Inr None"
    by blast
  from init_scenario scenario_topics s g l n show ?thesis
    by blast
qed

text \<open>
  Where the statement without these conditions fails. Under metadata that lists \<open>/b\<close> only,
  \<open>get_entry_after\<close> at 20 for \<open>/a\<close> returns \<open>None\<close> though an entry of \<open>/a\<close> at 30 is
  stored. For the catalogued name \<open>/a" OR topics.name="/a\<close>, \<open>get_entry_after\<close> at 20
  returns the entry at 10. In a bag of two files, \<open>get_entry_after\<close> at 30 returns \<open>None\<close>
  from the first file though the second stores an entry at 40.
\<close>

theorem get_entry_after_not_earliest:
  "Rosbag2_init ''scenario'' False partial_metadata = Inr partial_bag \<and>
   get_entry_after partial_bag scenario_sqlite3 scenario_db 20 (Some ''/a'') = Inr None \<and>
   \<lparr>topic = ''/a'', data = [4], timestamp = 30\<rparr> \<in> set (stored_entries scenario_db (Some ''/a'')) \<and>
   Rosbag2_init ''scenario'' False injected_metadata = Inr injected_bag \<and>
   get_entry_after injected_bag scenario_sqlite3 scenario_db 20 (Some injected_name) =
     Inr (Some \<lparr>topic = ''/a'', data = [1], timestamp = 10\<rparr>) \<and>
   Rosbag2_init ''scenario'' False split_metadata = Inr split_bag \<and>
   db_name split_bag = Some ''scenario/scenario_0.db3'' \<and>
   get_entry_after split_bag scenario_sqlite3 scenario_db 30 None = Inr None \<and>
   \<lparr>topic = ''/a'', data = [6], timestamp = 40\<rparr> \<in> set (stored_entries split_db_1 None)"
proof -
  have 1: "get_entry_after partial_bag scenario_sqlite3 scenario_db 20 (Some ''/a'') = Inr None"
    by code_simp
  have 2: "\<lparr>topic = ''/a'', data = [4], timestamp = 30\<rparr>
      \<in> set (stored_entries scenario_db (Some ''/a''))"
    by code_simp
  have 3: "get_entry_after injected_bag scenario_sqlite3 scenario_db 20 (Some injected_name) =
      Inr (Some \<lparr>topic = ''/a'', data = [1], timestamp = 10\<rparr>)"
    by code_simp
  have 4: "db_name split_bag = Some ''scenario/scenario_0.db3''"
    by (simp add: split_bag_def)
  have 5: "get_entry_after split_bag scenario_sqlite3 scenario_db 30 None = Inr None"
    by code_simp
  have 6: "\<lparr>topic = ''/a'', data = [6], timestamp = 40\<rparr> \<in> set (stored_entries split_db_1 None)"
    by code_simp
  from init_partial 1 2 init_injected 3 init_split 4 5 6 show ?thesis
    by blast
qed

subsection \<open>Range lookups\<close>

text \<open>
  The range lookup on a bag opened for reading, for any two times \<open>t0\<close>, \<open>t1\<close>: when no
  topic is given, or the topic is not in the catalog, or its name is one the engine reads
  as a string, \<open>get_entries_in_range\<close> returns a list whose timestamps never decrease and
  all lie between \<open>t0\<close> and \<open>t1\<close>, both bounds included; the list is empty when
  \<open>t0 > t1\<close>.
\<close>

theorem get_entries_in_range_sorted_within:
  assumes "Rosbag2_init path False md = Inr self" and "get_topics self = Inr names"
    and "tp = None \<or> (\<exists>n. tp = Some n \<and> (n \<notin> set names \<or> read_as_string db n))"
  shows "\<exists>es. get_entries_in_range self sql db t0 t1 tp = Inr (Some es) \<and>
           sorted (map timestamp es) \<and>
           (\<forall>e \<in> set es. t0 \<le> timestamp e \<and> timestamp e \<le> t1) \<and>
           (t1 < t0 \<longrightarrow> es = [])"
proof -
  note rd = init_reading_eq [OF assms(1)]
  let ?q = "Between_Asc t0 t1"
  have s: "sorted (map timestamp (run_query sql db ?q f))" for f
    by (simp add: run_query_def sorted_order_by)
  have w: "\<forall>e \<in> set (run_query sql db ?q f). t0 \<le> timestamp e \<and> timestamp e \<le> t1"
    if "f = No_Topic \<or> (\<exists>n. f = Name_Is n)" for f
    using that by (auto simp: run_query_def set_order_by)
  have e: "run_query sql db ?q f = []" if "t1 < t0" "f = No_Topic \<or> (\<exists>n. f = Name_Is n)" for f
    using that by (auto simp: run_query_def order_by_empty filter_empty_conv)
  obtain es where es: "execute_sql_query self sql db ?q tp = Inr es"
    and cases: "es = [] \<or>
      (\<exists>f. es = run_query sql db ?q f \<and> (f = No_Topic \<or> (\<exists>n. f = Name_Is n)))"
  proof (cases tp)
    case None
    with execute_no_topic [OF assms(1), of sql db ?q] that show ?thesis
      by blast
  next
    case (Some n)
    show ?thesis
    proof (cases "n \<in> set names")
      case False
      with execute_uncatalogued [OF assms(1,2), of n sql db ?q] Some that show ?thesis
        by blast
    next
      case True
      with assms(3) Some have "read_as_string db n"
        by simp
      with execute_catalogued [OF assms(1,2) True, of db sql ?q] Some that show ?thesis
        by blast
    qed
  qed
  have "get_entries_in_range self sql db t0 t1 tp = Inr (Some es)"
    using rd es by (simp add: get_entries_in_range_def)
  moreover have "sorted (map timestamp es)"
    using cases s by auto
  moreover have "\<forall>e \<in> set es. t0 \<le> timestamp e \<and> timestamp e \<le> t1"
    using cases w by auto
  moreover have "t1 < t0 \<longrightarrow> es = []"
    using cases e by auto
  ultimately show ?thesis by blast
qed

theorem get_entries_in_range_sorted_within_witness:
  "Rosbag2_init ''scenario'' False scenario_metadata = Inr scenario_bag \<and>
   get_topics scenario_bag = Inr [''/a'', ''/b''] \<and>
   read_as_string scenario_db ''/a'' \<and>
   get_entries_in_range scenario_bag scenario_sqlite3 scenario_db 15 25 (Some ''/a'') =
     Inr (Some [\<lparr>topic = ''/a'', data = [2], timestamp = 20\<rparr>,
                \<lparr>topic = ''/a'', data = [3], timestamp = 20\<rparr>]) \<and>
   get_entries_in_range scenario_bag scenario_sqlite3 scenario_db 25 15 (Some ''/a'') =
     Inr (Some [])"
proof -
  have s: "read_as_string scenario_db ''/a''"
    by code_simp
  have g: "get_entries_in_range scenario_bag scenario_sqlite3 scenario_db 15 25 (Some ''/a'') =
     Inr (Some [\<lparr>topic = ''/a'', data = [2], timestamp = 20\<rparr>,
                \<lparr>topic = ''/a'', data = [3], timestamp = 20\<rparr>])"
    by code_simp
  from s have c: "Some ''/a'' = None \<or>
      (\<exists>n. Some ''/a'' = Some n \<and> (n \<notin> set [''/a'', ''/b''] \<or> read_as_string scenario_db n))"
    by simp
  from get_entries_in_range_sorted_within [OF init_scenario scenario_topics c,
      of scenario_sqlite3 25 15]
  have "get_entries_in_range scenario_bag scenario_sqlite3 scenario_db 25 15 (Some ''/a'') =
      Inr (Some [])"
    by auto
  with init_scenario scenario_topics s g show ?thesis
    by blast
qed

text \<open>
  C3. For every bag opened for reading and every two times \<open>t0\<close>, \<open>t1\<close>,
  \<open>get_entries_in_range\<close> is to return a list whose timestamps never decrease and all
  lie between \<open>t0\<close> and \<open>t1\<close>, and the empty list when \<open>t0 > t1\<close>. The code puts the
  requested name into the query text unescaped and so breaks this for a catalogued topic
  whose name holds a double quote: for the name \<open>/a" OR topics.name="/a\<close> the range from
  25 to 15 returns the four entries of \<open>/a\<close>, at 10, 20, 20 and 30.
\<close>

theorem get_entries_in_range_out_of_range:
  "Rosbag2_init ''scenario'' False injected_metadata = Inr injected_bag \<and>
   get_topics injected_bag = Inr [injected_name] \<and>
   get_entries_in_range injected_bag scenario_sqlite3 scenario_db 25 15 (Some injected_name) =
     Inr (Some [\<lparr>topic = ''/a'', data = [1], timestamp = 10\<rparr>,
                \<lparr>topic = ''/a'', data = [2], timestamp = 20\<rparr>,
                \<lparr>topic = ''/a'', data = [3], timestamp = 20\<rparr>,
                \<lparr>topic = ''/a'', data = [4], timestamp = 30\<rparr>])"
proof -
  have t: "get_topics injected_bag = Inr [injected_name]"
    by code_simp
  have g: "get_entries_in_range injected_bag scenario_sqlite3 scenario_db 25 15
      (Some injected_name) =
     Inr (Some [\<lparr>topic = ''/a'', data = [1], timestamp = 10\<rparr>,
                \<lparr>topic = ''/a'', data = [2], timestamp = 20\<rparr>,
                \<lparr>topic = ''/a'', data = [3], timestamp = 20\<rparr>,
                \<lparr>topic = ''/a'', data = [4], timestamp = 30\<rparr>])"
    by code_simp
  from init_injected t g show ?thesis
    by blast
qed

text \<open>
  C6. For a bag opened for reading, a range lookup for a topic that is not among
  \<open>get_topics\<close> returns the empty list and does not raise, whatever the two times are,
  so also for \<open>t0 \<le> t1\<close>.
\<close>

theorem unknown_topic_range_is_empty:
  assumes "Rosbag2_init path False md = Inr self"
    and "get_topics self = Inr names" and "n \<notin> set names"
  shows "get_entries_in_range self sql db t0 t1 (Some n) = Inr (Some [])"
  using init_reading_eq [OF assms(1)] execute_uncatalogued [OF assms]
  by (simp add: get_entries_in_range_def)

theorem unknown_topic_range_is_empty_witness:
  "Rosbag2_init ''scenario'' False scenario_metadata = Inr scenario_bag \<and>
   get_topics scenario_bag = Inr [''/a'', ''/b''] \<and>
   ''/c'' \<notin> set [''/a'', ''/b''] \<and>
   get_entries_in_range scenario_bag scenario_sqlite3 scenario_db 10 30 (Some ''/c'') =
     Inr (Some [])"
proof -
  have n: "''/c'' \<notin> set [''/a'', ''/b'']" by simp
  from unknown_topic_range_is_empty [OF init_scenario scenario_topics n,
      of scenario_sqlite3 scenario_db 10 30]
    init_scenario scenario_topics n
  show ?thesis by blast
qed

subsection \<open>Retrieval while recording\<close>

text \<open>
  C4, as the code has it. On a handle opened for recording, \<open>get_entry\<close>,
  \<open>get_entry_after\<close> and \<open>get_entries_in_range\<close> each return \<open>None\<close>: no call raises and
  no call returns entry data. The range lookup returns \<open>None\<close> too, not an empty list.
\<close>

theorem recording_retrieval_returns_none:
  assumes "Rosbag2_init path True md = Inr self"
  shows "get_entry self sql db t tp = Inr None \<and>
         get_entry_after self sql db t tp = Inr None \<and>
         get_entries_in_range self sql db t0 t1 tp = Inr None"
  using init_recording_eq [OF assms]
  by (simp add: get_entry_def get_entry_after_def get_entries_in_range_def)

theorem recording_retrieval_returns_none_witness:
  "Rosbag2_init ''scenario'' True scenario_metadata = Inr recording_bag \<and>
   get_entry recording_bag scenario_sqlite3 scenario_db 20 (Some ''/a'') = Inr None \<and>
   get_entry_after recording_bag scenario_sqlite3 scenario_db 20 (Some ''/a'') = Inr None \<and>
   get_entries_in_range recording_bag scenario_sqlite3 scenario_db 15 25 (Some ''/a'') = Inr None"
  using recording_retrieval_returns_none [OF init_recording] init_recording
  by simp

text \<open>On the recording handle the range lookup gives \<open>None\<close>, which is not the empty list.\<close>

theorem recording_range_not_empty_sequence:
  "Rosbag2_init ''scenario'' True scenario_metadata = Inr recording_bag \<and>
   get_entries_in_range recording_bag scenario_sqlite3 scenario_db 15 25 (Some ''/a'') = Inr None \<and>
   get_entries_in_range recording_bag scenario_sqlite3 scenario_db 15 25 (Some ''/a'') \<noteq>
     Inr (Some [])"
  by (simp add: init_recording get_entries_in_range_def recording_bag_def)

text \<open>
  C5, as the code has it. On a handle opened for recording, none of the three retrieval
  calls fails: no error is raised, each call returns \<open>None\<close> and no entry, and it does so
  whatever the engine, the database, the times and the topic are.
\<close>

theorem recording_retrieval_never_raises:
  assumes "Rosbag2_init path True md = Inr self"
  shows "(\<not> isl (get_entry self sql db t tp) \<and>
          get_entry self sql db t tp = Inr None \<and>
          get_entry self sql' db' t' tp' = Inr None) \<and>
         (\<not> isl (get_entry_after self sql db t tp) \<and>
          get_entry_after self sql db t tp = Inr None \<and>
          get_entry_after self sql' db' t' tp' = Inr None) \<and>
         (\<not> isl (get_entries_in_range self sql db t0 t1 tp) \<and>
          get_entries_in_range self sql db t0 t1 tp = Inr None \<and>
          get_entries_in_range self sql' db' t0' t1' tp' = Inr None)"
  using init_recording_eq [OF assms]
  by (simp add: get_entry_def get_entry_after_def get_entries_in_range_def)

theorem recording_retrieval_never_raises_witness:
  "Rosbag2_init ''scenario'' True scenario_metadata = Inr recording_bag \<and>
   \<not> isl (get_entry recording_bag scenario_sqlite3 scenario_db 20 (Some ''/a'')) \<and>
   get_entry recording_bag scenario_sqlite3 scenario_db 20 (Some ''/a'') = Inr None \<and>
   get_entries_in_range recording_bag scenario_sqlite3 split_db_1 0 50 None = Inr None"
  using recording_retrieval_never_raises [OF init_recording] init_recording
  by simp

text \<open>On the recording handle all three calls return; none ends in an error.\<close>

theorem recording_retrieval_no_error:
  "Rosbag2_init ''scenario'' True scenario_metadata = Inr recording_bag \<and>
   \<not> isl (get_entry recording_bag scenario_sqlite3 scenario_db 20 None) \<and>
   \<not> isl (get_entry_after recording_bag scenario_sqlite3 scenario_db 20 None) \<and>
   \<not> isl (get_entries_in_range recording_bag scenario_sqlite3 scenario_db 15 25 None)"
  by (simp add: init_recording get_entry_def get_entry_after_def get_entries_in_range_def
      recording_bag_def)

subsection \<open>The topic catalog\<close>

lemma build_map_names_aux:
  assumes "\<And>n tm. map_of acc n = Some tm \<Longrightarrow> name tm = n"
    and "map_of (fold (\<lambda>t_info m.
            AList.update (name (topic_metadata t_info)) (topic_metadata t_info) m) infos acc) n
              = Some tm"
  shows "name tm = n"
  using assms
proof (induction infos arbitrary: acc)
  case Nil
  then show ?case by simp
next
  case (Cons i infos)
  let ?acc = "AList.update (name (topic_metadata i)) (topic_metadata i) acc"
  have step: "name tm' = n'" if "map_of ?acc n' = Some tm'" for n' tm'
    using that Cons.prems(1) [of n' tm']
    by (simp add: update_conv' split: if_splits)
  from Cons.prems(2) have "map_of (fold (\<lambda>t_info m.
            AList.update (name (topic_metadata t_info)) (topic_metadata t_info) m) infos ?acc) n
              = Some tm"
    by simp
  with step show ?case
    by (rule Cons.IH)
qed

lemma build_map_names:
  "map_of (build_topic_metadata_map infos) n = Some tm \<Longrightarrow> name tm = n"
  using build_map_names_aux [where acc = "[]" and infos = infos and n = n and tm = tm]
  by (simp add: build_topic_metadata_map_def)

lemma build_map_distinct_aux:
  "distinct (map fst acc) \<Longrightarrow>
   distinct (map fst (fold (\<lambda>t_info m.
      AList.update (name (topic_metadata t_info)) (topic_metadata t_info) m) infos acc))"
  by (induction infos arbitrary: acc) (simp_all add: distinct_update)

lemma build_map_distinct: "distinct (map fst (build_topic_metadata_map infos))"
  using build_map_distinct_aux [of "[]" infos] by (simp add: build_topic_metadata_map_def)

lemma map_of_None_iff_notin: "map_of m n = None \<longleftrightarrow> n \<notin> set (map fst m)"
  by (simp add: map_of_eq_None_iff)

text \<open>
  C7, as the code has it. For a bag opened for reading, every name in \<open>get_topics\<close> has a
  type: \<open>get_topic_type\<close> returns it and not \<open>None\<close>; for every string that is not in
  \<open>get_topics\<close>, \<open>get_topic_type\<close> returns \<open>None\<close>. Neither call raises.
\<close>

theorem topics_have_types:
  assumes "Rosbag2_init path False md = Inr self"
  shows "\<exists>names. get_topics self = Inr names \<and>
           (\<forall>n \<in> set names. \<exists>ty. get_topic_type self n = Inr (Some ty)) \<and>
           (\<forall>n. n \<notin> set names \<longrightarrow> get_topic_type self n = Inr None)"
proof -
  note rd = init_reading_eq [OF assms]
  let ?m = "build_topic_metadata_map (topics_with_message_count md)"
  have t: "get_topics self = Inr (sort (map fst ?m))"
    by (rule get_topics_reading [OF assms])
  have known: "\<exists>ty. get_topic_type self n = Inr (Some ty)" if "n \<in> set (map fst ?m)" for n
  proof -
    from that obtain tm where "map_of ?m n = Some tm"
      by (cases "map_of ?m n") (simp_all add: map_of_None_iff_notin)
    with rd show ?thesis by (simp add: get_topic_type_def)
  qed
  have unknown: "get_topic_type self n = Inr None" if "n \<notin> set (map fst ?m)" for n
  proof -
    from that have "map_of ?m n = None" by (simp add: map_of_None_iff_notin)
    with rd show ?thesis by (simp add: get_topic_type_def)
  qed
  from t known unknown show ?thesis by simp
qed

theorem topics_have_types_witness:
  "Rosbag2_init ''scenario'' False scenario_metadata = Inr scenario_bag \<and>
   get_topics scenario_bag = Inr [''/a'', ''/b''] \<and>
   get_topic_type scenario_bag ''/a'' = Inr (Some ''TypeX'') \<and>
   get_topic_type scenario_bag ''/c'' = Inr None"
proof -
  have a: "get_topic_type scenario_bag ''/a'' = Inr (Some ''TypeX'')"
    by code_simp
  from topics_have_types [OF init_scenario] scenario_topics
  have "get_topic_type scenario_bag ''/c'' = Inr None"
    by auto
  with init_scenario scenario_topics a show ?thesis
    by blast
qed

text \<open>
  A handle opened for recording has no catalog: \<open>get_topics\<close> and \<open>get_topic_type\<close> raise
  there, so \<open>get_topic_type\<close> does not return \<open>None\<close> for a name outside the catalog.
\<close>

theorem recording_topics_raise:
  "Rosbag2_init ''scenario'' True scenario_metadata = Inr recording_bag \<and>
   get_topics recording_bag = Inl AttributeError \<and>
   get_topic_type recording_bag ''/a'' = Inl AttributeError \<and>
   get_topic_type recording_bag ''/a'' \<noteq> Inr None"
  by (simp add: init_recording get_topics_def get_topic_type_def recording_bag_def)

text \<open>
  C9, as the code has it. For a bag opened for reading and every name: either the name is
  not in the catalog and \<open>get_topic_type\<close> and \<open>get_topic_metadata\<close> both return \<open>None\<close>,
  or it is in the catalog, \<open>get_topic_metadata\<close> returns a record whose \<open>name\<close> is that name
  and \<open>get_topic_type\<close> returns that record's \<open>type\<close>.
\<close>

theorem topic_type_and_metadata_agree:
  assumes "Rosbag2_init path False md = Inr self" and "get_topics self = Inr names"
  shows "(n \<notin> set names \<and> get_topic_type self n = Inr None \<and>
            get_topic_metadata self n = Inr None) \<or>
         (\<exists>tm. n \<in> set names \<and> get_topic_metadata self n = Inr (Some tm) \<and>
            get_topic_type self n = Inr (Some (type tm)) \<and> name tm = n)"
proof -
  note rd = init_reading_eq [OF assms(1)]
  let ?m = "build_topic_metadata_map (topics_with_message_count md)"
  from assms(2) have "names = sort (map fst ?m)"
    unfolding get_topics_reading [OF assms(1)] by simp
  then have names: "set names = set (map fst ?m)"
    by simp
  show ?thesis
  proof (cases "map_of ?m n")
    case None
    then have "n \<notin> set names"
      unfolding names by (simp add: map_of_None_iff_notin)
    with rd None show ?thesis
      by (simp add: get_topic_type_def get_topic_metadata_def)
  next
    case (Some tm)
    then have "n \<in> set names"
      unfolding names using map_of_None_iff_notin [of ?m n] by simp
    moreover from Some have "name tm = n"
      by (rule build_map_names)
    ultimately show ?thesis
      using rd Some by (simp add: get_topic_type_def get_topic_metadata_def)
  qed
qed

theorem topic_type_and_metadata_agree_witness:
  "Rosbag2_init ''scenario'' False scenario_metadata = Inr scenario_bag \<and>
   get_topics scenario_bag = Inr [''/a'', ''/b''] \<and>
   get_topic_metadata scenario_bag ''/b'' =
     Inr (Some \<lparr>name = ''/b'', type = ''TypeY'', serialization_format = ''cdr''\<rparr>) \<and>
   get_topic_type scenario_bag ''/b'' = Inr (Some ''TypeY'')"
proof -
  have m: "get_topic_metadata scenario_bag ''/b'' =
     Inr (Some \<lparr>name = ''/b'', type = ''TypeY'', serialization_format = ''cdr''\<rparr>)"
    by code_simp
  from topic_type_and_metadata_agree [OF init_scenario scenario_topics, of "''/b''"] m
  have "get_topic_type scenario_bag ''/b'' = Inr (Some ''TypeY'')"
    by auto
  with init_scenario scenario_topics m show ?thesis
    by blast
qed

text \<open>On a handle opened for recording both lookups raise instead of returning \<open>None\<close>.\<close>

theorem recording_metadata_raises:
  "Rosbag2_init ''scenario'' True scenario_metadata = Inr recording_bag \<and>
   get_topic_metadata recording_bag ''/a'' = Inl AttributeError \<and>
   get_topic_type recording_bag ''/a'' = Inl AttributeError \<and>
   get_topic_metadata recording_bag ''/a'' \<noteq> Inr None"
  by (simp add: init_recording get_topic_metadata_def get_topic_type_def recording_bag_def)

subsection \<open>Topics by type\<close>

lemma setdefault_append_Nil: "setdefault_append k v [] = [(k, [v])]"
  by (simp add: setdefault_append_def)

lemma setdefault_append_Cons:
  "setdefault_append k v ((k', g) # d) =
     (if k' = k then (k, g @ [v]) # d else (k', g) # setdefault_append k v d)"
  by (simp add: setdefault_append_def split: option.splits)

lemma setdefault_append_keys:
  "fst ` set (setdefault_append k v d) = insert k (fst ` set d)"
proof (induction d)
  case Nil
  then show ?case by (simp add: setdefault_append_Nil)
next
  case (Cons p d)
  obtain k' g where p: "p = (k', g)" by (cases p)
  show ?case
  proof (cases "k' = k")
    case True
    then show ?thesis
      unfolding p by (simp add: setdefault_append_Cons)
  next
    case False
    with Cons.IH show ?thesis
      unfolding p by (simp add: setdefault_append_Cons insert_commute)
  qed
qed

lemma setdefault_append_distinct:
  "distinct (map fst d) \<Longrightarrow> distinct (map fst (setdefault_append k v d))"
proof (induction d)
  case Nil
  then show ?case by (simp add: setdefault_append_Nil)
next
  case (Cons p d)
  obtain k' g where p: "p = (k', g)" by (cases p)
  from Cons show ?case
    unfolding p by (auto simp: setdefault_append_Cons setdefault_append_keys)
qed

lemma setdefault_append_nonempty:
  "[] \<notin> snd ` set d \<Longrightarrow> [] \<notin> snd ` set (setdefault_append k v d)"
proof (induction d)
  case Nil
  then show ?case by (simp add: setdefault_append_Nil)
next
  case (Cons p d)
  obtain k' g where p: "p = (k', g)" by (cases p)
  from Cons show ?case
    unfolding p by (auto simp: setdefault_append_Cons)
qed

lemma setdefault_append_members:
  "set (concat (map snd (setdefault_append k v d))) = insert v (set (concat (map snd d)))"
proof (induction d)
  case Nil
  then show ?case by (simp add: setdefault_append_Nil)
next
  case (Cons p d)
  obtain k' g where p: "p = (k', g)" by (cases p)
  from Cons show ?case
    unfolding p by (auto simp: setdefault_append_Cons)
qed

lemma setdefault_append_distinct_members:
  "distinct (concat (map snd d)) \<Longrightarrow> v \<notin> set (concat (map snd d)) \<Longrightarrow>
   distinct (concat (map snd (setdefault_append k v d)))"
proof (induction d)
  case Nil
  then show ?case by (simp add: setdefault_append_Nil)
next
  case (Cons p d)
  obtain k' g where p: "p = (k', g)" by (cases p)
  show ?case
  proof (cases "k' = k")
    case True
    with Cons.prems show ?thesis
      unfolding p by (auto simp: setdefault_append_Cons)
  next
    case False
    from Cons.prems have d: "distinct (concat (map snd d))" and v: "v \<notin> set (concat (map snd d))"
      unfolding p by auto
    from Cons.prems have g: "distinct g" "v \<notin> set g" "set g \<inter> set (concat (map snd d)) = {}"
      unfolding p by auto
    have "set g \<inter> set (concat (map snd (setdefault_append k v d))) = {}"
      unfolding setdefault_append_members using g by auto
    with Cons.IH [OF d v] g False show ?thesis
      unfolding p by (simp add: setdefault_append_Cons)
  qed
qed

lemma setdefault_append_group:
  assumes "(ty, g) \<in> set (setdefault_append k v d)" and "n \<in> set g"
  shows "(ty = k \<and> n = v) \<or> (\<exists>g'. (ty, g') \<in> set d \<and> n \<in> set g')"
  using assms
proof (induction d)
  case Nil
  then show ?case by (simp add: setdefault_append_Nil)
next
  case (Cons p d)
  obtain k' g0 where p: "p = (k', g0)" by (cases p)
  show ?case
  proof (cases "k' = k")
    case True
    with Cons.prems show ?thesis
      unfolding p by (auto simp: setdefault_append_Cons)
  next
    case False
    with Cons.prems(1) have "(ty, g) = (k', g0) \<or> (ty, g) \<in> set (setdefault_append k v d)"
      unfolding p by (simp add: setdefault_append_Cons)
    then show ?thesis
    proof
      assume "(ty, g) = (k', g0)"
      with Cons.prems(2) show ?thesis unfolding p by auto
    next
      assume "(ty, g) \<in> set (setdefault_append k v d)"
      from Cons.IH [OF this Cons.prems(2)] show ?thesis by auto
    qed
  qed
qed

lemma groups_invariant:
  assumes "distinct (map fst m)"
  shows "distinct (map fst (fold group_step m [])) \<and>
         [] \<notin> snd ` set (fold group_step m []) \<and>
         distinct (concat (map snd (fold group_step m []))) \<and>
         set (concat (map snd (fold group_step m []))) = set (map fst m) \<and>
         (\<forall>ty g n. (ty, g) \<in> set (fold group_step m []) \<and> n \<in> set g \<longrightarrow>
            (\<exists>tm. (n, tm) \<in> set m \<and> type tm = ty))"
  using assms
proof (induction m rule: rev_induct)
  case Nil
  then show ?case by simp
next
  case (snoc x m)
  obtain nm tm where x: "x = (nm, tm)" by (cases x)
  let ?d = "fold group_step m []"
  have step: "fold group_step (m @ [x]) [] = setdefault_append (type tm) nm ?d"
    by (simp add: x group_step_def)
  from snoc.prems have dm: "distinct (map fst m)" and fresh: "nm \<notin> set (map fst m)"
    by (simp_all add: x)
  note ih = snoc.IH [OF dm]
  from ih fresh have fresh': "nm \<notin> set (concat (map snd ?d))"
    by simp
  have 1: "distinct (map fst (setdefault_append (type tm) nm ?d))"
    using ih by (simp add: setdefault_append_distinct)
  have 2: "[] \<notin> snd ` set (setdefault_append (type tm) nm ?d)"
    using ih by (simp add: setdefault_append_nonempty)
  have 3: "distinct (concat (map snd (setdefault_append (type tm) nm ?d)))"
    using ih fresh' by (simp add: setdefault_append_distinct_members)
  have 4: "set (concat (map snd (setdefault_append (type tm) nm ?d))) = set (map fst (m @ [x]))"
    unfolding setdefault_append_members using ih by (simp add: x)
  have 5: "\<exists>tm'. (n, tm') \<in> set (m @ [x]) \<and> type tm' = ty"
    if "(ty, g) \<in> set (setdefault_append (type tm) nm ?d)" and "n \<in> set g" for ty g n
  proof -
    from setdefault_append_group [OF that]
    consider "ty = type tm" "n = nm" | g' where "(ty, g') \<in> set ?d" "n \<in> set g'"
      by blast
    then show ?thesis
    proof cases
      case 1
      then show ?thesis by (auto simp: x)
    next
      case 2
      with ih obtain tm' where "(n, tm') \<in> set m" "type tm' = ty"
        by blast
      then show ?thesis by auto
    qed
  qed
  from 1 2 3 4 5 show ?case
    unfolding step by blast
qed

text \<open>
  C10, as the code has it. For a bag opened for reading, \<open>get_topics_by_type\<close> returns a
  mapping (its keys are distinct) with no empty group; every name of \<open>get_topics\<close> is in
  exactly one group, the key of a group is the type of each of its names, no name comes
  twice, and the names of all groups together are the names of \<open>get_topics\<close>.
\<close>

theorem topics_by_type_partitions:
  assumes "Rosbag2_init path False md = Inr self"
  shows "\<exists>groups names.
           get_topics_by_type self = Inr groups \<and> get_topics self = Inr names \<and>
           distinct (map fst groups) \<and>
           [] \<notin> set (map snd groups) \<and>
           (\<forall>n \<in> set names. \<exists>!p. p \<in> set groups \<and> n \<in> set (snd p)) \<and>
           (\<forall>p \<in> set groups. \<forall>n \<in> set (snd p). get_topic_type self n = Inr (Some (fst p))) \<and>
           distinct (concat (map snd groups)) \<and>
           set (concat (map snd groups)) = set names"
proof -
  note rd = init_reading_eq [OF assms]
  let ?m = "build_topic_metadata_map (topics_with_message_count md)"
  let ?groups = "fold group_step ?m []"
  let ?names = "sort (map fst ?m)"
  have dm: "distinct (map fst ?m)"
    by (rule build_map_distinct)
  note inv = groups_invariant [OF dm]
  have g: "get_topics_by_type self = Inr ?groups"
    using rd by (simp add: get_topics_by_type_def)
  have t: "get_topics self = Inr ?names"
    by (rule get_topics_reading [OF assms])
  have typed: "get_topic_type self n = Inr (Some (fst p))"
    if mem: "p \<in> set ?groups" "n \<in> set (snd p)" for p n
  proof -
    from inv have "\<forall>ty g n. (ty, g) \<in> set ?groups \<and> n \<in> set g \<longrightarrow>
        (\<exists>tm. (n, tm) \<in> set ?m \<and> type tm = ty)"
      by blast
    moreover from mem(1) have "(fst p, snd p) \<in> set ?groups"
      by simp
    ultimately obtain tm where tm: "(n, tm) \<in> set ?m" "type tm = fst p"
      using mem(2) by blast
    from tm(1) dm have "map_of ?m n = Some tm"
      by simp
    with rd tm(2) show ?thesis
      by (simp add: get_topic_type_def)
  qed
  have one: "\<exists>!p. p \<in> set ?groups \<and> n \<in> set (snd p)" if "n \<in> set ?names" for n
  proof -
    from that inv have "n \<in> set (concat (map snd ?groups))"
      by simp
    then obtain p where p: "p \<in> set ?groups" "n \<in> set (snd p)"
      by auto
    have "p' = p" if p': "p' \<in> set ?groups" "n \<in> set (snd p')" for p'
    proof -
      from typed [OF p] typed [OF p'] have "fst p' = fst p"
        by simp
      with inv p(1) p'(1) show ?thesis
        by (metis eq_key_imp_eq_value prod.collapse)
    qed
    with p show ?thesis by blast
  qed
  from inv have rest: "distinct (map fst ?groups)" "[] \<notin> set (map snd ?groups)"
    "distinct (concat (map snd ?groups))" "set (concat (map snd ?groups)) = set ?names"
    by simp_all
  from g t rest one typed show ?thesis
    by blast
qed

lemma scenario_topics_by_type:
  "get_topics_by_type scenario_bag = Inr [(''TypeX'', [''/a'']), (''TypeY'', [''/b''])]"
  by code_simp

theorem topics_by_type_partitions_witness:
  "Rosbag2_init ''scenario'' False scenario_metadata = Inr scenario_bag \<and>
   get_topics scenario_bag = Inr [''/a'', ''/b''] \<and>
   get_topics_by_type scenario_bag = Inr [(''TypeX'', [''/a'']), (''TypeY'', [''/b''])] \<and>
   get_topic_type scenario_bag ''/b'' = Inr (Some ''TypeY'')"
proof -
  from topics_by_type_partitions [OF init_scenario]
  have "\<forall>p \<in> set [(''TypeX'', [''/a'']), (''TypeY'', [''/b''])].
      \<forall>n \<in> set (snd p). get_topic_type scenario_bag n = Inr (Some (fst p))"
    unfolding scenario_topics_by_type by blast
  then have "get_topic_type scenario_bag ''/b'' = Inr (Some ''TypeY'')"
    by simp
  with init_scenario scenario_topics scenario_topics_by_type show ?thesis
    by blast
qed

text \<open>On a handle opened for recording \<open>get_topics_by_type\<close> raises and returns no mapping.\<close>

theorem recording_topics_by_type_raises:
  "Rosbag2_init ''scenario'' True scenario_metadata = Inr recording_bag \<and>
   get_topics_by_type recording_bag = Inl AttributeError \<and>
   get_topics recording_bag = Inl AttributeError"
  by (simp add: init_recording get_topics_by_type_def get_topics_def recording_bag_def)

end
